theory Spec2Isabelle
  imports Main "HOL-Library.Word" "HOL-Library.AList" "HOL-Library.Sublist"
begin

section \<open>The otelsink telemetry sink (otelsink/main.go)\<close>

text \<open>
  The program is a gRPC server with three Export operations (traces, metrics, logs) that
  hand each request to a \<open>Sink\<close>, which writes the serialized request to the file
  \<open>dir/stream/nanoseconds\<close>. The Go functions of \<open>main.go\<close> are embedded below as
  functions on an explicit \<open>world\<close>: the file tree, the clock, the lines written through
  klog, and the sequence of operations issued. The Go standard library functions the
  program calls (\<open>strconv.FormatInt\<close>, \<open>filepath.Join\<close>, \<open>filepath.Dir\<close>,
  \<open>os.MkdirAll\<close>, \<open>os.WriteFile\<close>) are modelled from their documented behaviour on
  a Unix system; the protobuf codec is a parameter.
\<close>

subsection \<open>Go values: bytes, errors\<close>

type_synonym byte = "8 word"

datatype errno = ENOENT | ENOTDIR | EISDIR | EEXIST | ENOSPC | EIO

fun strerror :: "errno \<Rightarrow> string" where
  "strerror ENOENT = ''no such file or directory''"
| "strerror ENOTDIR = ''not a directory''"
| "strerror EISDIR = ''is a directory''"
| "strerror EEXIST = ''file exists''"
| "strerror ENOSPC = ''no space left on device''"
| "strerror EIO = ''input/output error''"

datatype code = OK | Internal

text \<open>
  Go's \<open>error\<close> values that occur in the program: \<open>*fs.PathError\<close> (operation, path,
  errno), an error of the protobuf library, \<open>fmt.Errorf(".. %w", err)\<close> (the formatted
  text before the wrapped error, and the wrapped error), \<open>context.Canceled\<close>,
  \<open>context.DeadlineExceeded\<close>, an error of the net or grpc packages, and a gRPC status
  error (code and message).
\<close>

datatype error =
    PathError string string errno
  | ProtoError string
  | Errorf string error
  | Canceled
  | DeadlineExceeded
  | NetError string
  | Status code string

fun Error :: "error \<Rightarrow> string" where
  "Error (PathError opn path e) = opn @ '' '' @ path @ '': '' @ strerror e"
| "Error (ProtoError s) = s"
| "Error (Errorf s e) = s @ Error e"
| "Error Canceled = ''context canceled''"
| "Error DeadlineExceeded = ''context deadline exceeded''"
| "Error (NetError s) = s"
| "Error (Status c s) =
     ''rpc error: code = '' @ (case c of OK \<Rightarrow> ''OK'' | Internal \<Rightarrow> ''Internal'') @ '' desc = '' @ s"

text \<open>
  The \<open>%q\<close> verb of \<open>fmt\<close> on a string: double quotes around it, a backslash before
  a double quote or a backslash (the escapes of non-printable bytes are left out: the paths
  of the program are printable).
\<close>

definition quote :: "string \<Rightarrow> string" where
  "quote s = CHR 0x22 # concat (map (\<lambda>c. if c = CHR 0x22 \<or> c = CHR 0x5C then [CHR 0x5C, c] else [c]) s) @ [CHR 0x22]"

subsection \<open>strconv.FormatInt\<close>

definition digits :: string where
  "digits = ''0123456789abcdefghijklmnopqrstuvwxyz''"

function formatBits :: "nat \<Rightarrow> nat \<Rightarrow> string" where
  "formatBits base u =
     (if base < 2 \<or> u < base then [digits ! u]
      else formatBits base (u div base) @ [digits ! (u mod base)])"
  by pat_completeness auto
termination
  by (relation "measure (\<lambda>(base, u). u)") auto

declare formatBits.simps [simp del]

text \<open>
  \<open>strconv.FormatInt(i, base)\<close> for \<open>2 \<le> base \<le> 36\<close>: a minus sign and the digits
  of \<open>-i\<close> when \<open>i\<close> is negative, the digits of \<open>i\<close> otherwise. (Go panics on another
  base; the program calls it with 10.)
\<close>

definition strconv_FormatInt :: "int \<Rightarrow> nat \<Rightarrow> string" where
  "strconv_FormatInt i base =
     (if i < 0 then CHR ''-'' # formatBits base (nat (- i)) else formatBits base (nat i))"

text \<open>Reading a decimal digit string back, to state that the rendering is decimal.\<close>

definition digit_val :: "char \<Rightarrow> nat" where
  "digit_val c = of_char c - 48"

definition parse_decimal :: "string \<Rightarrow> nat" where
  "parse_decimal s = foldl (\<lambda>a c. 10 * a + digit_val c) 0 s"

definition strconv_ParseInt10 :: "string \<Rightarrow> int" where
  "strconv_ParseInt10 s =
     (case s of [] \<Rightarrow> 0
      | c # cs \<Rightarrow> if c = CHR ''-'' then - int (parse_decimal cs) else int (parse_decimal s))"

subsection \<open>path/filepath on Unix\<close>

text \<open>\<open>strings.Split(s, "/")\<close> and \<open>strings.Join(elems, "/")\<close>.\<close>

fun split_sep :: "string \<Rightarrow> string list" where
  "split_sep [] = [[]]"
| "split_sep (c # cs) =
     (if c = CHR ''/'' then [] # split_sep cs
      else (case split_sep cs of [] \<Rightarrow> [[c]] | x # xs \<Rightarrow> (c # x) # xs))"

fun join_sep :: "string list \<Rightarrow> string" where
  "join_sep [] = []"
| "join_sep [x] = x"
| "join_sep (x # y # ys) = x @ CHR ''/'' # join_sep (y # ys)"

text \<open>
  \<open>filepath.Clean\<close>, element by element: an empty element and \<open>.\<close> are dropped; \<open>..\<close>
  removes the element before it when there is one that is not \<open>..\<close>, is dropped at the
  root of a rooted path, and is kept otherwise; the result of an empty path is \<open>.\<close>.
  The stack \<open>out\<close> holds the elements written so far, last first.
\<close>

fun clean_elem :: "bool \<Rightarrow> string list \<Rightarrow> string \<Rightarrow> string list" where
  "clean_elem rooted out e =
     (if e = [] \<or> e = ''.'' then out
      else if e = ''..'' then
        (case out of
           [] \<Rightarrow> if rooted then [] else [''..'']
         | t # ts \<Rightarrow> if t = ''..'' then ''..'' # t # ts else ts)
      else e # out)"

definition filepath_Clean :: "string \<Rightarrow> string" where
  "filepath_Clean path =
     (let rooted = (case path of [] \<Rightarrow> False | c # _ \<Rightarrow> c = CHR ''/'');
          out = join_sep (rev (foldl (clean_elem rooted) [] (split_sep path)));
          res = (if rooted then CHR ''/'' # out else out)
      in if res = [] then ''.'' else res)"

text \<open>
  \<open>filepath.Join\<close>: the elements from the first non-empty one on, joined by the
  separator and cleaned; the empty string when every element is empty.
\<close>

definition filepath_Join :: "string list \<Rightarrow> string" where
  "filepath_Join elem =
     (case dropWhile (\<lambda>e. e = []) elem of [] \<Rightarrow> [] | es \<Rightarrow> filepath_Clean (join_sep es))"

text \<open>\<open>filepath.Dir\<close>: the path up to and including its last separator, cleaned.\<close>

definition filepath_Dir :: "string \<Rightarrow> string" where
  "filepath_Dir path = filepath_Clean (rev (dropWhile (\<lambda>c. c \<noteq> CHR ''/'') (rev path)))"

subsection \<open>The world: file tree, device, clock, log, operations issued\<close>

text \<open>
  The file tree maps a cleaned path to a directory or to a regular file with its bytes;
  the current directory \<open>.\<close> and the root \<open>/\<close> are always directories. An
  operation fails for a structural reason (a missing parent, a regular file where a
  directory is needed, a directory where a file is to be opened) or because of the device:
  \<open>disk_space\<close> is the number of bytes the device still takes (\<open>None\<close>: no limit), and
  a write of more stops short with ENOSPC; \<open>close_fails\<close> says that closing a written
  file reports an input/output error.
\<close>

datatype node = Dir | File "byte list"

datatype event = MkdirCall string | MarshalCall | WriteFileCall string "byte list"

record world =
  files :: "(string \<times> node) list"
  now :: "64 word"
  klog :: "string list"
  events :: "event list"
  disk_space :: "nat option"
  close_fails :: bool

definition lookup :: "world \<Rightarrow> string \<Rightarrow> node option" where
  "lookup w path =
     (let k = filepath_Clean path
      in if k = ''.'' \<or> k = ''/'' then Some Dir else map_of (files w) k)"

definition os_Stat :: "world \<Rightarrow> string \<Rightarrow> error + node" where
  "os_Stat w path =
     (case lookup w path of None \<Rightarrow> Inl (PathError ''stat'' path ENOENT) | Some n \<Rightarrow> Inr n)"

definition os_Mkdir :: "world \<Rightarrow> string \<Rightarrow> error option \<times> world" where
  "os_Mkdir w path =
     (let w1 = w\<lparr>events := events w @ [MkdirCall path]\<rparr>
      in case lookup w path of
           Some _ \<Rightarrow> (Some (PathError ''mkdir'' path EEXIST), w1)
         | None \<Rightarrow>
            (case lookup w (filepath_Dir (filepath_Clean path)) of
               None \<Rightarrow> (Some (PathError ''mkdir'' path ENOENT), w1)
             | Some (File _) \<Rightarrow> (Some (PathError ''mkdir'' path ENOTDIR), w1)
             | Some Dir \<Rightarrow>
                (None, w1\<lparr>files := AList.update (filepath_Clean path) Dir (files w)\<rparr>)))"

text \<open>
  \<open>os.MkdirAll\<close> (Go 1.19): the fast path returns when the path is already there
  (nil for a directory, ENOTDIR for a file); otherwise the parent, which is the path
  before the separator in front of its last element, is made first, and then
  \<open>os.Mkdir\<close> is called on the path itself.
\<close>

definition mkdirall_prefix :: "string \<Rightarrow> string" where
  "mkdirall_prefix path =
     rev (dropWhile (\<lambda>c. c \<noteq> CHR ''/'') (dropWhile (\<lambda>c. c = CHR ''/'') (rev path)))"

function os_MkdirAll :: "world \<Rightarrow> string \<Rightarrow> error option \<times> world" where
  "os_MkdirAll w path =
     (case os_Stat w path of
        Inr Dir \<Rightarrow> (None, w)
      | Inr (File _) \<Rightarrow> (Some (PathError ''mkdir'' path ENOTDIR), w)
      | Inl _ \<Rightarrow>
         (case (if 1 < length (mkdirall_prefix path)
                then os_MkdirAll w (butlast (mkdirall_prefix path)) else (None, w)) of
            (Some err, w1) \<Rightarrow> (Some err, w1)
          | (None, w1) \<Rightarrow>
             (case os_Mkdir w1 path of
                (None, w2) \<Rightarrow> (None, w2)
              | (Some err, w2) \<Rightarrow>
                 (case os_Stat w2 path of Inr Dir \<Rightarrow> (None, w2) | _ \<Rightarrow> (Some err, w2)))))"
  by pat_completeness auto

lemma mkdirall_prefix_length: "length (mkdirall_prefix path) \<le> length path"
proof -
  have "length (mkdirall_prefix path) \<le> length (dropWhile (\<lambda>c. c = CHR ''/'') (rev path))"
    unfolding mkdirall_prefix_def by (simp add: length_dropWhile_le)
  also have "\<dots> \<le> length (rev path)"
    by (rule length_dropWhile_le)
  finally show ?thesis by simp
qed

termination os_MkdirAll
proof (relation "measure (\<lambda>(w, path). length path)")
  show "wf (measure (\<lambda>(w, path). length path))" by simp
next
  fix w :: world and path :: string and x :: error
  assume "1 < length (mkdirall_prefix path)"
  then have "length (butlast (mkdirall_prefix path)) < length (mkdirall_prefix path)"
    by simp
  with mkdirall_prefix_length [of path]
  show "((w, butlast (mkdirall_prefix path)), (w, path)) \<in> measure (\<lambda>(w, path). length path)"
    by simp
qed

declare os_MkdirAll.simps [simp del]

text \<open>
  \<open>os.OpenFile(name, O_WRONLY|O_CREATE|O_TRUNC, perm)\<close>: a directory cannot be opened
  for writing; an existing file is truncated; a missing file is created, empty, when its
  parent is a directory.
\<close>

definition os_OpenFile :: "world \<Rightarrow> string \<Rightarrow> error option \<times> world" where
  "os_OpenFile w name =
     (let w1 = w\<lparr>files := AList.update (filepath_Clean name) (File []) (files w)\<rparr>
      in case lookup w name of
           Some Dir \<Rightarrow> (Some (PathError ''open'' name EISDIR), w)
         | Some (File _) \<Rightarrow> (None, w1)
         | None \<Rightarrow>
            (case lookup w (filepath_Dir (filepath_Clean name)) of
               None \<Rightarrow> (Some (PathError ''open'' name ENOENT), w)
             | Some (File _) \<Rightarrow> (Some (PathError ''open'' name ENOTDIR), w)
             | Some Dir \<Rightarrow> (None, w1)))"

text \<open>
  The number of bytes of \<open>data\<close> the device takes, and \<open>f.Write(data)\<close> on the file
  just opened (and so empty): the bytes the device takes are in the file afterwards, and the
  write reports ENOSPC when they are not all of \<open>data\<close>.
\<close>

definition accepted :: "world \<Rightarrow> byte list \<Rightarrow> nat" where
  "accepted w data =
     (case disk_space w of None \<Rightarrow> length data | Some free \<Rightarrow> min free (length data))"

definition File_Write :: "world \<Rightarrow> string \<Rightarrow> byte list \<Rightarrow> error option \<times> world" where
  "File_Write w name data =
     (let n = accepted w data;
          w1 = w\<lparr>files := AList.update (filepath_Clean name) (File (take n data)) (files w),
                  disk_space := map_option (\<lambda>free. free - n) (disk_space w)\<rparr>
      in (if n < length data then Some (PathError ''write'' name ENOSPC) else None, w1))"

definition File_Close :: "world \<Rightarrow> string \<Rightarrow> error option" where
  "File_Close w name = (if close_fails w then Some (PathError ''close'' name EIO) else None)"

text \<open>
  \<open>os.WriteFile\<close>: open with create and truncate; write the data; close; the error is
  that of the write, or else that of the close. A failure after the open leaves the file
  created or truncated, with the bytes that were written.
\<close>

definition os_WriteFile :: "world \<Rightarrow> string \<Rightarrow> byte list \<Rightarrow> error option \<times> world" where
  "os_WriteFile w name data =
     (let w1 = w\<lparr>events := events w @ [WriteFileCall name data]\<rparr>
      in case os_OpenFile w1 name of
           (Some err, w2) \<Rightarrow> (Some err, w2)
         | (None, w2) \<Rightarrow>
            (case File_Write w2 name data of
               (err, w3) \<Rightarrow>
                 (let err1 = File_Close w3 name
                  in (if err1 \<noteq> None \<and> err = None then err1 else err, w3))))"

subsection \<open>The protobuf codec\<close>

text \<open>
  \<open>proto.Marshal\<close>, \<open>proto.Unmarshal\<close> and \<open>prototext.Format\<close> on the request type
  \<open>'m\<close> belong to the protobuf library and are taken as a parameter.
\<close>

record 'm codec =
  proto_Marshal :: "'m \<Rightarrow> error + byte list"
  proto_Unmarshal :: "byte list \<Rightarrow> error + 'm"
  prototext_Format :: "'m \<Rightarrow> string"

record Context =
  ctx_Err :: "error option"

subsection \<open>Sink.Export\<close>

record Sink =
  dir :: string

text \<open>
  \<open>Sink.Export(ctx, stream, msg)\<close>, statement by statement. The result is Go's
  \<open>error\<close> (\<open>None\<close> for nil) and the world after the call.
\<close>

definition Sink_Export ::
  "'m codec \<Rightarrow> Sink \<Rightarrow> Context \<Rightarrow> string \<Rightarrow> 'm \<Rightarrow> world \<Rightarrow> error option \<times> world" where
  "Sink_Export c s ctx stream msg w =
     (let n = strconv_FormatInt (sint (now w)) 10;
          p = filepath_Join [dir s, stream, n]
      in case os_MkdirAll w (filepath_Dir p) of
           (Some err, w1) \<Rightarrow>
             (Some (Errorf (''failed to create directory '' @ quote (filepath_Dir p) @ '': '') err), w1)
         | (None, w1) \<Rightarrow>
            (let w2 = w1\<lparr>events := events w1 @ [MarshalCall]\<rparr>
             in case proto_Marshal c msg of
                  Inl err \<Rightarrow> (Some (Errorf ''failed to serialize message: '' err), w2)
                | Inr b \<Rightarrow>
                   (case os_WriteFile w2 p b of
                      (Some err, w3) \<Rightarrow>
                        (Some (Errorf (''failed to write file '' @ quote p @ '': '') err), w3)
                    | (None, w3) \<Rightarrow> (None, w3))))"

subsection \<open>The three Export operations\<close>

record PartialSuccess =
  rejected :: int
  error_message :: string

datatype ExportTraceServiceResponse =
  ExportTraceServiceResponse "PartialSuccess option"

datatype ExportMetricsServiceResponse =
  ExportMetricsServiceResponse "PartialSuccess option"

datatype ExportLogsServiceResponse =
  ExportLogsServiceResponse "PartialSuccess option"

record traceServer =
  trace_sink :: Sink

record metricsServer =
  metrics_sink :: Sink

record logsServer =
  logs_sink :: Sink

definition klog_Infof :: "string \<Rightarrow> world \<Rightarrow> world" where
  "klog_Infof line w = w\<lparr>klog := klog w @ [line]\<rparr>"

definition traceServer_Export ::
  "'m codec \<Rightarrow> traceServer \<Rightarrow> Context \<Rightarrow> 'm \<Rightarrow> world
     \<Rightarrow> (error + ExportTraceServiceResponse) \<times> world" where
  "traceServer_Export c s ctx req w =
     (let w1 = klog_Infof (''trace.Export '' @ prototext_Format c req) w
      in case Sink_Export c (trace_sink s) ctx ''traces'' req w1 of
           (Some err, w2) \<Rightarrow> (Inl (Status Internal ''error writing data''), w2)
         | (None, w2) \<Rightarrow> (Inr (ExportTraceServiceResponse None), w2))"

definition metricsServer_Export ::
  "'m codec \<Rightarrow> metricsServer \<Rightarrow> Context \<Rightarrow> 'm \<Rightarrow> world
     \<Rightarrow> (error + ExportMetricsServiceResponse) \<times> world" where
  "metricsServer_Export c s ctx req w =
     (let w1 = klog_Infof (''metrics.Export '' @ prototext_Format c req) w
      in case Sink_Export c (metrics_sink s) ctx ''metrics'' req w1 of
           (Some err, w2) \<Rightarrow> (Inl (Status Internal ''error writing data''), w2)
         | (None, w2) \<Rightarrow> (Inr (ExportMetricsServiceResponse None), w2))"

definition logsServer_Export ::
  "'m codec \<Rightarrow> logsServer \<Rightarrow> Context \<Rightarrow> 'm \<Rightarrow> world
     \<Rightarrow> (error + ExportLogsServiceResponse) \<times> world" where
  "logsServer_Export c s ctx req w =
     (let w1 = klog_Infof (''logs.Export '' @ prototext_Format c req) w
      in case Sink_Export c (logs_sink s) ctx ''logs'' req w1 of
           (Some err, w2) \<Rightarrow> (Inl (Status Internal ''error writing data''), w2)
         | (None, w2) \<Rightarrow> (Inr (ExportLogsServiceResponse None), w2))"

subsection \<open>run and main\<close>

text \<open>
  What the surroundings of the process do during one execution: the result of
  \<open>net.Listen\<close>, whether the interrupt signal has arrived when the \<open>select\<close> of
  \<open>run\<close> is decided, the value \<open>grpcServer.Serve\<close> has sent on \<open>listenErr\<close> by
  then (\<open>None\<close> while it is still serving), and the case Go's \<open>select\<close> picks when
  both are ready.
\<close>

record surroundings =
  listen_err :: "error option"
  interrupted :: bool
  serve_returned :: "error option option"
  pick_ctx_done :: bool

text \<open>
  \<open>signal.NotifyContext(context.Background(), os.Interrupt)\<close>: the context is done,
  with \<open>Err() = context.Canceled\<close>, once the signal has arrived.
\<close>

definition signal_NotifyContext :: "surroundings \<Rightarrow> Context" where
  "signal_NotifyContext env = \<lparr>ctx_Err = (if interrupted env then Some Canceled else None)\<rparr>"

text \<open>
  \<open>run(ctx)\<close>: the outer \<open>None\<close> is a \<open>select\<close> that blocks for ever (no signal, and
  \<open>Serve\<close> never returns); otherwise Go's \<open>error\<close> that \<open>run\<close> returns.
\<close>

definition run :: "surroundings \<Rightarrow> Context \<Rightarrow> world \<Rightarrow> error option option \<times> world" where
  "run env ctx w =
     (let listen = ''localhost:3000'';
          w1 = klog_Infof (''listening on '' @ quote listen) w
      in case listen_err env of
           Some err \<Rightarrow> (Some (Some (Errorf (''failed to listen on '' @ quote listen @ '': '') err)), w1)
         | None \<Rightarrow>
            (case (ctx_Err ctx, serve_returned env) of
               (None, None) \<Rightarrow> (None, w1)
             | (Some e, None) \<Rightarrow> (Some (ctx_Err ctx), w1)
             | (None, Some err) \<Rightarrow> (Some err, w1)
             | (Some e, Some err) \<Rightarrow>
                 (if pick_ctx_done env then (Some (ctx_Err ctx), w1) else (Some err, w1))))"

record exit =
  status :: "nat option"
  stderr :: string

text \<open>
  \<open>main\<close>: the exit status of the process (\<open>None\<close> while it keeps running) and what
  it has written to standard error.
\<close>

definition main :: "surroundings \<Rightarrow> world \<Rightarrow> exit \<times> world" where
  "main env w =
     (let ctx = signal_NotifyContext env
      in case run env ctx w of
           (None, w1) \<Rightarrow> (\<lparr>status = None, stderr = []\<rparr>, w1)
         | (Some None, w1) \<Rightarrow> (\<lparr>status = Some 0, stderr = []\<rparr>, w1)
         | (Some (Some err), w1) \<Rightarrow> (\<lparr>status = Some 1, stderr = Error err @ [CHR 0x0A]\<rparr>, w1))"

subsection \<open>The process as run builds it\<close>

text \<open>\<open>run\<close> builds one sink on the directory \<open>data\<close> and the three servers on it.\<close>

definition run_sink :: Sink where
  "run_sink = \<lparr>dir = ''data''\<rparr>"




subsection \<open>Notions used in the statements\<close>

text \<open>
  A plain name is one path element: not empty, without a separator, and neither \<open>.\<close>
  nor \<open>..\<close>. The directory \<open>data\<close>, the three stream names and every decimal
  rendering of a timestamp are plain names.
\<close>

definition plain_name :: "string \<Rightarrow> bool" where
  "plain_name s \<longleftrightarrow> s \<noteq> [] \<and> CHR ''/'' \<notin> set s \<and> s \<noteq> ''.'' \<and> s \<noteq> ''..''"

text \<open>What \<open>os.MkdirAll\<close> does on a path \<open>a/b\<close> of two plain names, case by case.\<close>

definition MkdirAll2 :: "world \<Rightarrow> string \<Rightarrow> string \<Rightarrow> error option \<times> world" where
  "MkdirAll2 w a b =
     (let ab = a @ CHR ''/'' # b
      in case map_of (files w) ab of
           Some Dir \<Rightarrow> (None, w)
         | Some (File _) \<Rightarrow> (Some (PathError ''mkdir'' ab ENOTDIR), w)
         | None \<Rightarrow>
            (case map_of (files w) a of
               Some (File _) \<Rightarrow> (Some (PathError ''mkdir'' a ENOTDIR), w)
             | Some Dir \<Rightarrow>
                 (None, w\<lparr>events := events w @ [MkdirCall ab],
                          files := AList.update ab Dir (files w)\<rparr>)
             | None \<Rightarrow>
                 (None, w\<lparr>events := events w @ [MkdirCall a, MkdirCall ab],
                          files := AList.update ab Dir (AList.update a Dir (files w))\<rparr>)))"

text \<open>
  The destination the specification names, \<open>root/stream/n\<close>, with \<open>n\<close> the
  clock reading in decimal.
\<close>

definition dest :: "Sink \<Rightarrow> string \<Rightarrow> world \<Rightarrow> string" where
  "dest s stream w =
     dir s @ CHR ''/'' # stream @ CHR ''/'' # strconv_FormatInt (sint (now w)) 10"



text \<open>
  A well-formed tree: the parent of every entry is a directory of the tree (or \<open>.\<close>,
  or \<open>/\<close>).
\<close>

definition wf_world :: "world \<Rightarrow> bool" where
  "wf_world w \<longleftrightarrow> list_all (\<lambda>(k, n). lookup w (filepath_Dir k) = Some Dir) (files w)"

text \<open>The operations issued since the world \<open>w\<close>, in a later world \<open>w'\<close>.\<close>

definition new_events :: "world \<Rightarrow> world \<Rightarrow> event list" where
  "new_events w w' = drop (length (events w)) (events w')"

fun is_MkdirCall :: "event \<Rightarrow> bool" where
  "is_MkdirCall (MkdirCall _) = True"
| "is_MkdirCall _ = False"


text \<open>
  A codec to evaluate the functions on: a message is a list of bytes, serialized behind
  the one-byte tag \<open>0x0A\<close>; a message that holds the byte \<open>0xFF\<close> is refused (as
  \<open>proto.Marshal\<close> refuses a string field that is not UTF-8).
\<close>

definition demo_codec :: "byte list codec" where
  "demo_codec =
     \<lparr>proto_Marshal = (\<lambda>m. if 0xFF \<in> set m then Inl (ProtoError ''proto: invalid UTF-8'')
                             else Inr (0x0A # m)),
      proto_Unmarshal = (\<lambda>b. case b of [] \<Rightarrow> Inl (ProtoError ''proto: unexpected EOF'')
                             | t # m \<Rightarrow> if t = 0x0A then Inr m
                                        else Inl (ProtoError ''proto: cannot parse'')),
      prototext_Format = (\<lambda>m. formatBits 10 (length m) @ '' bytes'')\<rparr>"

definition background :: Context where
  "background = \<lparr>ctx_Err = None\<rparr>"

definition cancelled :: Context where
  "cancelled = \<lparr>ctx_Err = Some Canceled\<rparr>"


text \<open>
  The three ways persistence fails in \<open>Sink.Export\<close>: \<open>os.MkdirAll\<close> returns an
  error; \<open>proto.Marshal\<close> returns an error; both succeed and \<open>os.WriteFile\<close> returns
  an error.
\<close>

definition mkdir_fails :: "Sink \<Rightarrow> string \<Rightarrow> world \<Rightarrow> bool" where
  "mkdir_fails s stream w =
     (case fst (os_MkdirAll w (filepath_Dir
              (filepath_Join [dir s, stream, strconv_FormatInt (sint (now w)) 10]))) of
        None \<Rightarrow> False | Some _ \<Rightarrow> True)"

definition marshal_fails :: "'m codec \<Rightarrow> 'm \<Rightarrow> bool" where
  "marshal_fails c msg = (case proto_Marshal c msg of Inl _ \<Rightarrow> True | Inr _ \<Rightarrow> False)"

definition write_fails :: "'m codec \<Rightarrow> Sink \<Rightarrow> string \<Rightarrow> 'm \<Rightarrow> world \<Rightarrow> bool" where
  "write_fails c s stream msg w =
     (let p = filepath_Join [dir s, stream, strconv_FormatInt (sint (now w)) 10]
      in case os_MkdirAll w (filepath_Dir p) of
           (Some _, _) \<Rightarrow> False
         | (None, w1) \<Rightarrow>
            (case proto_Marshal c msg of
               Inl _ \<Rightarrow> False
             | Inr b \<Rightarrow>
                (case fst (os_WriteFile (w1\<lparr>events := events w1 @ [MarshalCall]\<rparr>) p b) of
                   None \<Rightarrow> False | Some _ \<Rightarrow> True)))"


text \<open>
  The device takes the whole of \<open>data\<close> and closes the file without error; a healthy
  device has no limit of space and closes without error.
\<close>

definition device_takes :: "world \<Rightarrow> byte list \<Rightarrow> bool" where
  "device_takes w data \<longleftrightarrow> accepted w data = length data \<and> \<not> close_fails w"

definition healthy :: "world \<Rightarrow> bool" where
  "healthy w \<longleftrightarrow> disk_space w = None \<and> \<not> close_fails w"

text \<open>Concrete worlds and surroundings, for evaluation.\<close>

definition world0 :: world where
  "world0 = \<lparr>files = [], now = 5, klog = [], events = [], disk_space = None, close_fails = False\<rparr>"

definition world1 :: world where
  "world1 =
     \<lparr>files = [(''data'', Dir), (''data/traces'', Dir), (''data/traces/5'', File [0x0A, 1])],
      now = 5, klog = [],
      events = [MkdirCall ''data'', MkdirCall ''data/traces'', MarshalCall,
                WriteFileCall ''data/traces/5'' [0x0A, 1]],
      disk_space = None, close_fails = False\<rparr>"

definition world2 :: world where
  "world2 =
     \<lparr>files = [(''data'', Dir), (''data/traces'', Dir), (''data/traces/5'', File [0x0A, 2])],
      now = 5, klog = [],
      events = [MkdirCall ''data'', MkdirCall ''data/traces'', MarshalCall,
                WriteFileCall ''data/traces/5'' [0x0A, 1], MarshalCall,
                WriteFileCall ''data/traces/5'' [0x0A, 2]],
      disk_space = None, close_fails = False\<rparr>"

definition world3 :: world where
  "world3 =
     \<lparr>files = [(''data'', Dir), (''data/traces'', Dir), (''data/traces/5'', File [0x0A, 1]),
               (''data/traces/6'', File [0x0A, 2])],
      now = 6, klog = [],
      events = [MkdirCall ''data'', MkdirCall ''data/traces'', MarshalCall,
                WriteFileCall ''data/traces/5'' [0x0A, 1], MarshalCall,
                WriteFileCall ''data/traces/6'' [0x0A, 2]],
      disk_space = None, close_fails = False\<rparr>"




definition interrupt_env :: surroundings where
  "interrupt_env =
     \<lparr>listen_err = None, interrupted = True, serve_returned = None, pick_ctx_done = False\<rparr>"

section \<open>Properties\<close>

subsection \<open>Paths of plain names\<close>

lemma split_sep_nosep: "CHR ''/'' \<notin> set a \<Longrightarrow> split_sep a = [a]"
  by (induction a) auto

lemma split_sep_append:
  "CHR ''/'' \<notin> set a \<Longrightarrow> split_sep (a @ CHR ''/'' # r) = a # split_sep r"
  by (induction a) auto

lemma clean_elem_plain: "plain_name e \<Longrightarrow> clean_elem r out e = e # out"
  by (simp add: plain_name_def)

lemma plain_name_not_rooted:
  "plain_name a \<Longrightarrow> (case a @ r of [] \<Rightarrow> False | c # _ \<Rightarrow> c = CHR ''/'') = False"
  by (cases a) (auto simp: plain_name_def)

lemma Clean_plain1: "plain_name a \<Longrightarrow> filepath_Clean a = a"
  using plain_name_not_rooted [of a "[]"]
  by (simp add: filepath_Clean_def split_sep_nosep clean_elem_plain plain_name_def)

lemma Clean_plain2:
  "plain_name a \<Longrightarrow> plain_name b \<Longrightarrow> filepath_Clean (a @ CHR ''/'' # b) = a @ CHR ''/'' # b"
  using plain_name_not_rooted [of a "CHR ''/'' # b"]
  by (simp add: filepath_Clean_def split_sep_nosep split_sep_append clean_elem_plain plain_name_def)

lemma Clean_plain3:
  "plain_name a \<Longrightarrow> plain_name b \<Longrightarrow> plain_name c \<Longrightarrow>
   filepath_Clean (a @ CHR ''/'' # b @ CHR ''/'' # c) = a @ CHR ''/'' # b @ CHR ''/'' # c"
  using plain_name_not_rooted [of a "CHR ''/'' # b @ CHR ''/'' # c"]
  by (simp add: filepath_Clean_def split_sep_nosep split_sep_append clean_elem_plain plain_name_def)

lemma Clean_plain1_slash: "plain_name a \<Longrightarrow> filepath_Clean (a @ ''/'') = a"
  using plain_name_not_rooted [of a "''/''"]
  by (simp add: filepath_Clean_def split_sep_append clean_elem_plain plain_name_def)

lemma Clean_plain2_slash:
  "plain_name a \<Longrightarrow> plain_name b \<Longrightarrow> filepath_Clean (a @ CHR ''/'' # b @ ''/'') = a @ CHR ''/'' # b"
  using plain_name_not_rooted [of a "CHR ''/'' # b @ ''/''"]
  by (simp add: filepath_Clean_def split_sep_append clean_elem_plain plain_name_def)

lemma Join_plain3:
  "plain_name a \<Longrightarrow> plain_name b \<Longrightarrow> plain_name c \<Longrightarrow>
   filepath_Join [a, b, c] = a @ CHR ''/'' # b @ CHR ''/'' # c"
  by (simp add: filepath_Join_def Clean_plain3) (simp add: plain_name_def)

lemma dropWhile_rev_nosep:
  "CHR ''/'' \<notin> set b \<Longrightarrow>
   rev (dropWhile (\<lambda>c. c \<noteq> CHR ''/'') (rev (xs @ CHR ''/'' # b))) = xs @ ''/''"
  by (auto simp: dropWhile_append3)


lemma dropWhile_rev_nosep0:
  "CHR ''/'' \<notin> set b \<Longrightarrow> dropWhile (\<lambda>c. c \<noteq> CHR ''/'') (rev b) = []"
  by auto

lemma Clean_empty: "filepath_Clean [] = ''.''"
  by (simp add: filepath_Clean_def)

lemma Dir_plain1: "plain_name a \<Longrightarrow> filepath_Dir a = ''.''"
  by (simp add: filepath_Dir_def dropWhile_rev_nosep0 Clean_empty plain_name_def)

lemma Dir_plain2: "plain_name a \<Longrightarrow> plain_name b \<Longrightarrow> filepath_Dir (a @ CHR ''/'' # b) = a"
proof -
  assume a: "plain_name a" and b: "plain_name b"
  have "rev (dropWhile (\<lambda>c. c \<noteq> CHR ''/'') (rev (a @ CHR ''/'' # b))) = a @ ''/''"
    using b by (intro dropWhile_rev_nosep) (simp add: plain_name_def)
  then show ?thesis
    using a by (simp add: filepath_Dir_def Clean_plain1_slash)
qed

lemma Dir_plain3:
  "plain_name a \<Longrightarrow> plain_name b \<Longrightarrow> plain_name c \<Longrightarrow>
   filepath_Dir (a @ CHR ''/'' # b @ CHR ''/'' # c) = a @ CHR ''/'' # b"
proof -
  assume a: "plain_name a" and b: "plain_name b" and c: "plain_name c"
  have "rev (dropWhile (\<lambda>c. c \<noteq> CHR ''/'') (rev ((a @ CHR ''/'' # b) @ CHR ''/'' # c)))
        = (a @ CHR ''/'' # b) @ ''/''"
    using c by (intro dropWhile_rev_nosep) (simp add: plain_name_def)
  then show ?thesis
    using a b by (simp add: filepath_Dir_def Clean_plain2_slash)
qed

lemma mkdirall_prefix_plain1: "plain_name a \<Longrightarrow> mkdirall_prefix a = []"
  by (cases a rule: rev_cases) (auto simp: mkdirall_prefix_def plain_name_def)

lemma mkdirall_prefix_plain2:
  "plain_name b \<Longrightarrow> mkdirall_prefix (xs @ CHR ''/'' # b) = xs @ ''/''"
proof -
  assume b: "plain_name b"
  then obtain bs x where bx: "b = bs @ [x]"
    by (cases b rule: rev_cases) (auto simp: plain_name_def)
  with b have x: "x \<noteq> CHR ''/''" and bs: "CHR ''/'' \<notin> set bs"
    by (auto simp: plain_name_def)
  have "dropWhile (\<lambda>c. c = CHR ''/'') (rev (xs @ CHR ''/'' # b)) = rev (xs @ CHR ''/'' # b)"
    using x by (simp add: bx)
  moreover have "rev (dropWhile (\<lambda>c. c \<noteq> CHR ''/'') (rev (xs @ CHR ''/'' # b))) = xs @ ''/''"
    using b by (intro dropWhile_rev_nosep) (simp add: plain_name_def)
  ultimately show ?thesis
    by (simp only: mkdirall_prefix_def)
qed

lemma lookup_plain1: "plain_name a \<Longrightarrow> lookup w a = map_of (files w) a"
  by (auto simp: lookup_def Clean_plain1 plain_name_def)

lemma lookup_plain2:
  "plain_name a \<Longrightarrow> plain_name b \<Longrightarrow> lookup w (a @ CHR ''/'' # b) = map_of (files w) (a @ CHR ''/'' # b)"
proof -
  assume a: "plain_name a" and b: "plain_name b"
  have "a @ CHR ''/'' # b \<noteq> ''.''" "a @ CHR ''/'' # b \<noteq> ''/''"
    using a by (cases a; simp add: plain_name_def)+
  then show ?thesis
    using a b by (simp add: lookup_def Clean_plain2)
qed

lemma lookup_plain3:
  "plain_name a \<Longrightarrow> plain_name b \<Longrightarrow> plain_name c \<Longrightarrow>
   lookup w (a @ CHR ''/'' # b @ CHR ''/'' # c) = map_of (files w) (a @ CHR ''/'' # b @ CHR ''/'' # c)"
proof -
  assume a: "plain_name a" and b: "plain_name b" and c: "plain_name c"
  have "a @ CHR ''/'' # b @ CHR ''/'' # c \<noteq> ''.''" "a @ CHR ''/'' # b @ CHR ''/'' # c \<noteq> ''/''"
    using a by (cases a; simp add: plain_name_def)+
  then show ?thesis
    using a b c by (simp add: lookup_def Clean_plain3)
qed

lemma lookup_dot: "lookup w ''.'' = Some Dir"
  by (simp add: lookup_def filepath_Clean_def)

lemma os_Mkdir_plain1:
  "plain_name a \<Longrightarrow> map_of (files w) a = None \<Longrightarrow>
   os_Mkdir w a = (None, w\<lparr>events := events w @ [MkdirCall a], files := AList.update a Dir (files w)\<rparr>)"
  by (simp add: os_Mkdir_def lookup_plain1 Clean_plain1 Dir_plain1 lookup_dot)

lemma os_Mkdir_plain2:
  "plain_name a \<Longrightarrow> plain_name b \<Longrightarrow> map_of (files w) (a @ CHR ''/'' # b) = None \<Longrightarrow>
   map_of (files w) a = Some Dir \<Longrightarrow>
   os_Mkdir w (a @ CHR ''/'' # b) =
     (None, w\<lparr>events := events w @ [MkdirCall (a @ CHR ''/'' # b)],
              files := AList.update (a @ CHR ''/'' # b) Dir (files w)\<rparr>)"
  by (simp add: os_Mkdir_def lookup_plain1 lookup_plain2 Clean_plain2 Dir_plain2)

lemma os_MkdirAll_plain1:
  "plain_name a \<Longrightarrow>
   os_MkdirAll w a =
     (case map_of (files w) a of
        Some Dir \<Rightarrow> (None, w)
      | Some (File _) \<Rightarrow> (Some (PathError ''mkdir'' a ENOTDIR), w)
      | None \<Rightarrow> (None, w\<lparr>events := events w @ [MkdirCall a], files := AList.update a Dir (files w)\<rparr>))"
  by (subst os_MkdirAll.simps)
     (simp add: os_Stat_def lookup_plain1 mkdirall_prefix_plain1 os_Mkdir_plain1
           split: option.splits node.splits)

lemma os_MkdirAll_plain2:
  assumes a: "plain_name a" and b: "plain_name b"
  shows "os_MkdirAll w (a @ CHR ''/'' # b) = MkdirAll2 w a b"
proof -
  have ne: "a @ CHR ''/'' # b \<noteq> a" by simp
  have len: "1 < length (a @ ''/'')" using a by (cases a) (auto simp: plain_name_def)
  show ?thesis
    apply (subst os_MkdirAll.simps)
    using a b len ne
    apply (simp add: os_Stat_def lookup_plain2 mkdirall_prefix_plain2 os_MkdirAll_plain1 MkdirAll2_def Let_def
          os_Mkdir_plain2 update_conv'
           split: option.splits node.splits)
    done
qed

subsection \<open>The decimal rendering of a timestamp\<close>

lemma digit_lt10: "d < 10 \<Longrightarrow> digits ! d \<in> set ''0123456789'' \<and> digit_val (digits ! d) = d"
proof -
  assume "d < 10"
  then have "d = 0 \<or> d = 1 \<or> d = 2 \<or> d = 3 \<or> d = 4 \<or> d = 5 \<or> d = 6 \<or> d = 7
    \<or> d = 8 \<or> d = 9"
    by arith
  then show ?thesis
    by (elim disjE) (simp_all add: digits_def digit_val_def)
qed

lemma formatBits_10_chars:
  "formatBits 10 u \<noteq> [] \<and> set (formatBits 10 u) \<subseteq> set ''0123456789''"
proof (induction "10::nat" u rule: formatBits.induct)
  case (1 u)
  show ?case
  proof (cases "u < 10")
    case True
    then show ?thesis
      using digit_lt10 [of u] by (subst (1 2) formatBits.simps) simp
  next
    case False
    have "u mod 10 < 10" by simp
    from digit_lt10 [OF this] 1 False show ?thesis
      by (subst (1 2) formatBits.simps) simp
  qed
qed

lemma parse_decimal_snoc: "parse_decimal (s @ [c]) = 10 * parse_decimal s + digit_val c"
  by (simp add: parse_decimal_def)

lemma parse_formatBits: "parse_decimal (formatBits 10 u) = u"
proof (induction "10::nat" u rule: formatBits.induct)
  case (1 u)
  show ?case
  proof (cases "u < 10")
    case True
    then show ?thesis
      using digit_lt10 [of u] by (subst formatBits.simps) (simp add: parse_decimal_def)
  next
    case False
    have "u mod 10 < 10" by simp
    from digit_lt10 [OF this] 1 False show ?thesis
      by (subst formatBits.simps) (simp add: parse_decimal_snoc)
  qed
qed

lemma formatBits_no_minus: "hd (formatBits 10 u) \<noteq> CHR ''-''"
proof -
  have "hd (formatBits 10 u) \<in> set ''0123456789''"
    using formatBits_10_chars [of u] by (cases "formatBits 10 u") auto
  then show ?thesis by auto
qed

lemma ParseInt_FormatInt: "strconv_ParseInt10 (strconv_FormatInt i 10) = i"
proof (cases "i < 0")
  case True
  then show ?thesis
    by (simp add: strconv_ParseInt10_def strconv_FormatInt_def parse_formatBits)
next
  case False
  obtain c cs where f: "formatBits 10 (nat i) = c # cs"
    using formatBits_10_chars [of "nat i"] by (cases "formatBits 10 (nat i)") auto
  with formatBits_no_minus [of "nat i"] have "c \<noteq> CHR ''-''" by simp
  with False f parse_formatBits [of "nat i"] show ?thesis
    by (simp add: strconv_ParseInt10_def strconv_FormatInt_def)
qed

lemma FormatInt_inject: "strconv_FormatInt i 10 = strconv_FormatInt j 10 \<longleftrightarrow> i = j"
  by (metis ParseInt_FormatInt)

lemma plain_name_FormatInt: "plain_name (strconv_FormatInt i 10)"
proof -
  have "CHR ''/'' \<notin> set (formatBits 10 u)" and dot: "CHR ''.'' \<notin> set (formatBits 10 u)"
    and "formatBits 10 u \<noteq> []" for u
    using formatBits_10_chars [of u] by auto
  moreover have "formatBits 10 u \<noteq> ''.''" "formatBits 10 u \<noteq> ''..''" for u
    using dot [of u] by auto
  ultimately show ?thesis
    by (simp add: plain_name_def strconv_FormatInt_def)
qed

lemma timestamp_inject:
  "strconv_FormatInt (sint (t1 :: 64 word)) 10 = strconv_FormatInt (sint t2) 10 \<longleftrightarrow> t1 = t2"
  by (auto simp: FormatInt_inject dest: signed_word_eqI)

subsection \<open>What the library calls change\<close>







lemma Sink_Export_plain:
  assumes "plain_name (dir s)" and "plain_name stream"
  shows "Sink_Export c s ctx stream msg w =
     (case MkdirAll2 w (dir s) stream of
        (Some err, w1) \<Rightarrow>
          (Some (Errorf (''failed to create directory '' @ quote (dir s @ CHR ''/'' # stream) @ '': '') err), w1)
      | (None, w1) \<Rightarrow>
         (let w2 = w1\<lparr>events := events w1 @ [MarshalCall]\<rparr>
          in case proto_Marshal c msg of
               Inl err \<Rightarrow> (Some (Errorf ''failed to serialize message: '' err), w2)
             | Inr b \<Rightarrow>
                (case os_WriteFile w2 (dest s stream w) b of
                   (Some err, w3) \<Rightarrow>
                     (Some (Errorf (''failed to write file '' @ quote (dest s stream w) @ '': '') err), w3)
                 | (None, w3) \<Rightarrow> (None, w3))))"
proof -
  have J: "filepath_Join [dir s, stream, strconv_FormatInt (sint (now w)) 10] = dest s stream w"
    using assms by (simp add: dest_def Join_plain3 plain_name_FormatInt)
  have D: "filepath_Dir (dest s stream w) = dir s @ CHR ''/'' # stream"
    using assms by (simp add: dest_def Dir_plain3 plain_name_FormatInt)
  show ?thesis
    unfolding Sink_Export_def Let_def J D os_MkdirAll_plain2 [OF assms] ..
qed

lemma MkdirAll2_ok:
  assumes "MkdirAll2 w a b = (None, w1)"
  shows "map_of (files w1) (a @ CHR ''/'' # b) = Some Dir"
    and "\<And>q. q \<noteq> a \<Longrightarrow> q \<noteq> a @ CHR ''/'' # b \<Longrightarrow> map_of (files w1) q = map_of (files w) q"
    and "now w1 = now w" and "klog w1 = klog w"
    and "events w1 = events w \<or> events w1 = events w @ [MkdirCall (a @ CHR ''/'' # b)]
         \<or> events w1 = events w @ [MkdirCall a, MkdirCall (a @ CHR ''/'' # b)]"
    and "disk_space w1 = disk_space w" and "close_fails w1 = close_fails w"
  using assms
  by (auto simp: MkdirAll2_def Let_def update_conv' new_events_def split: option.splits node.splits)

lemma MkdirAll2_fail:
  assumes "MkdirAll2 w a b = (Some e, w1)"
  shows "w1 = w"
    and "e = PathError ''mkdir'' a ENOTDIR \<or> e = PathError ''mkdir'' (a @ CHR ''/'' # b) ENOTDIR"
  using assms
  by (auto simp: MkdirAll2_def Let_def split: option.splits node.splits)

lemma os_WriteFile_plain3:
  assumes "plain_name a" and "plain_name b" and "plain_name n"
    and "map_of (files w) (a @ CHR ''/'' # b) = Some Dir"
  shows "os_WriteFile w (a @ CHR ''/'' # b @ CHR ''/'' # n) data =
     (let p = a @ CHR ''/'' # b @ CHR ''/'' # n;
          w1 = w\<lparr>events := events w @ [WriteFileCall p data]\<rparr>;
          k = accepted w data
      in if map_of (files w) p = Some Dir then (Some (PathError ''open'' p EISDIR), w1)
         else (if k < length data then Some (PathError ''write'' p ENOSPC)
               else if close_fails w then Some (PathError ''close'' p EIO) else None,
               w1\<lparr>files := AList.update p (File (take k data)) (AList.update p (File []) (files w)),
                   disk_space := map_option (\<lambda>free. free - k) (disk_space w)\<rparr>))"
  using assms
  by (auto simp: os_WriteFile_def os_OpenFile_def File_Write_def File_Close_def accepted_def
        Let_def lookup_plain3 lookup_plain2 Clean_plain3 Dir_plain3
        split: option.splits node.splits)

lemma dest_neq:
  "dest s stream w \<noteq> dir s" "dest s stream w \<noteq> dir s @ CHR ''/'' # stream"
  by (simp_all add: dest_def)

lemma Sink_Export_cases:
  assumes pl: "plain_name (dir s)" "plain_name stream"
    and ex: "Sink_Export c s ctx stream msg w = (r, w')"
  obtains (mkdir) e where "MkdirAll2 w (dir s) stream = (Some e, w)"
      and "r = Some (Errorf (''failed to create directory '' @ quote (dir s @ CHR ''/'' # stream) @ '': '') e)"
      and "w' = w"
    | (marshal) w1 e where "MkdirAll2 w (dir s) stream = (None, w1)"
      and "proto_Marshal c msg = Inl e"
      and "r = Some (Errorf ''failed to serialize message: '' e)"
      and "w' = w1\<lparr>events := events w1 @ [MarshalCall]\<rparr>"
    | (wopen) w1 b where "MkdirAll2 w (dir s) stream = (None, w1)"
      and "proto_Marshal c msg = Inr b"
      and "map_of (files w) (dest s stream w) = Some Dir"
      and "r = Some (Errorf (''failed to write file '' @ quote (dest s stream w) @ '': '')
                 (PathError ''open'' (dest s stream w) EISDIR))"
      and "w' = w1\<lparr>events := events w1 @ [MarshalCall, WriteFileCall (dest s stream w) b]\<rparr>"
    | (wio) w1 b cause where "MkdirAll2 w (dir s) stream = (None, w1)"
      and "proto_Marshal c msg = Inr b"
      and "map_of (files w) (dest s stream w) \<noteq> Some Dir"
      and "accepted w b < length b \<and> cause = PathError ''write'' (dest s stream w) ENOSPC
           \<or> accepted w b = length b \<and> close_fails w
             \<and> cause = PathError ''close'' (dest s stream w) EIO"
      and "r = Some (Errorf (''failed to write file '' @ quote (dest s stream w) @ '': '') cause)"
      and "events w' = events w1 @ [MarshalCall, WriteFileCall (dest s stream w) b]"
      and "map_of (files w') = (map_of (files w1))(dest s stream w \<mapsto> File (take (accepted w b) b))"
      and "disk_space w' = map_option (\<lambda>free. free - accepted w b) (disk_space w)"
      and "close_fails w' = close_fails w"
    | (ok) w1 b where "MkdirAll2 w (dir s) stream = (None, w1)"
      and "proto_Marshal c msg = Inr b"
      and "map_of (files w) (dest s stream w) \<noteq> Some Dir"
      and "accepted w b = length b" and "\<not> close_fails w"
      and "r = None"
      and "events w' = events w1 @ [MarshalCall, WriteFileCall (dest s stream w) b]"
      and "map_of (files w') = (map_of (files w1))(dest s stream w \<mapsto> File b)"
      and "disk_space w' = map_option (\<lambda>free. free - length b) (disk_space w)"
      and "close_fails w' = close_fails w"
proof -
  obtain r1 w1 where mk: "MkdirAll2 w (dir s) stream = (r1, w1)" by fastforce
  show thesis
  proof (cases r1)
    case (Some e)
    with mk MkdirAll2_fail(1) [of w "dir s" stream e w1] have "w1 = w" by simp
    with mk Some ex show thesis
      by (intro mkdir [of e]) (simp_all add: Sink_Export_plain [OF pl])
  next
    case None
    note ok1 = MkdirAll2_ok [OF mk [unfolded None]]
    have same: "map_of (files w1) (dest s stream w) = map_of (files w) (dest s stream w)"
      by (rule ok1(2)) (rule dest_neq)+
    show thesis
    proof (cases "proto_Marshal c msg")
      case (Inl e)
      with mk None ex show thesis
        by (intro marshal [of w1 e]) (simp_all add: Sink_Export_plain [OF pl])
    next
      case (Inr b)
      let ?p = "dest s stream w" and ?k = "accepted w b"
      have acc: "accepted (w1\<lparr>events := events w1 @ [MarshalCall]\<rparr>) b = ?k"
        using ok1(6) by (simp add: accepted_def)
      have wf: "os_WriteFile (w1\<lparr>events := events w1 @ [MarshalCall]\<rparr>) ?p b =
         (let w2 = w1\<lparr>events := events w1 @ [MarshalCall, WriteFileCall ?p b]\<rparr>
          in if map_of (files w1) ?p = Some Dir then (Some (PathError ''open'' ?p EISDIR), w2)
             else (if ?k < length b then Some (PathError ''write'' ?p ENOSPC)
                   else if close_fails w then Some (PathError ''close'' ?p EIO) else None,
                   w2\<lparr>files := AList.update ?p (File (take ?k b)) (AList.update ?p (File []) (files w1)),
                       disk_space := map_option (\<lambda>free. free - ?k) (disk_space w)\<rparr>))"
        unfolding dest_def
        using pl ok1(1,6,7) acc [unfolded dest_def]
        by (subst os_WriteFile_plain3) (simp_all add: plain_name_FormatInt Let_def)
      have le: "?k \<le> length b"
        by (simp add: accepted_def split: option.splits)
      show thesis
      proof (cases "map_of (files w) ?p = Some Dir")
        case True
        with mk None Inr ex wf same show thesis
          by (intro wopen [of w1 b]) (simp_all add: Sink_Export_plain [OF pl] Let_def)
      next
        case nd: False
        show thesis
        proof (cases "?k < length b")
          case True
          with nd mk None Inr ex wf same ok1(7) show thesis
            by (intro wio [of w1 b "PathError ''write'' ?p ENOSPC"])
               (auto simp: Sink_Export_plain [OF pl] Let_def update_conv')
        next
          case False
          with le have full: "?k = length b" by simp
          show thesis
          proof (cases "close_fails w")
            case True
            with full nd mk None Inr ex wf same ok1(7) show thesis
              by (intro wio [of w1 b "PathError ''close'' ?p EIO"])
                 (auto simp: Sink_Export_plain [OF pl] Let_def update_conv')
          next
            case False
            with full nd mk None Inr ex wf same ok1(7) show thesis
              by (intro ok [of w1 b])
                 (auto simp: Sink_Export_plain [OF pl] Let_def update_conv')
          qed
        qed
      qed
    qed
  qed
qed

lemma Sink_Export_fails_iff:
  "(\<exists>err. fst (Sink_Export c s ctx stream msg w) = Some err)
     \<longleftrightarrow> mkdir_fails s stream w \<or> marshal_fails c msg \<or> write_fails c s stream msg w"
  by (auto simp: Sink_Export_def mkdir_fails_def marshal_fails_def write_fails_def Let_def
           split: prod.splits option.splits sum.splits)




lemma dest_world0: "dest run_sink ''traces'' world0 = ''data/traces/5''"
  by code_simp


lemma dest_now: "dest s stream (w\<lparr>now := t\<rparr>) = dir s @ CHR ''/'' # stream @ CHR ''/'' # strconv_FormatInt (sint t) 10"
  by (simp add: dest_def)

lemma dest_eq_iff: "dest s stream w = dest s stream w' \<longleftrightarrow> now w = now w'"
  by (simp add: dest_def timestamp_inject)

lemma Sink_Export_ok_files:
  assumes "plain_name (dir s)" and "plain_name stream"
    and "Sink_Export c s ctx stream msg w = (None, w')"
  shows "\<exists>b. proto_Marshal c msg = Inr b
      \<and> map_of (files w') (dest s stream w) = Some (File b)
      \<and> (\<forall>q. q \<noteq> dest s stream w \<longrightarrow> q \<noteq> dir s \<longrightarrow> q \<noteq> dir s @ CHR ''/'' # stream \<longrightarrow>
            map_of (files w') q = map_of (files w) q)"
  using assms
proof (cases rule: Sink_Export_cases)
  case (ok w1 b)
  with MkdirAll2_ok(2) [OF ok(1)] show ?thesis
    by (intro exI [of _ b]) simp
qed simp_all

lemma wf_world_parent:
  assumes "wf_world w" and "map_of (files w) k = Some n"
  shows "lookup w (filepath_Dir k) = Some Dir"
proof -
  from assms(2) have "(k, n) \<in> set (files w)" by (rule map_of_SomeD)
  with assms(1) show ?thesis
    by (auto simp: wf_world_def list_all_iff)
qed

lemma wf_world_absent:
  assumes wf: "wf_world w" and a: "plain_name a" and b: "plain_name b"
    and root: "lookup w a = None"
  shows "map_of (files w) a = None"
    and "map_of (files w) (a @ CHR ''/'' # b) = None"
    and "plain_name n \<Longrightarrow> map_of (files w) (a @ CHR ''/'' # b @ CHR ''/'' # n) = None"
proof -
  show r: "map_of (files w) a = None"
    using root a by (simp add: lookup_plain1)
  show ab: "map_of (files w) (a @ CHR ''/'' # b) = None"
  proof (rule ccontr)
    assume "map_of (files w) (a @ CHR ''/'' # b) \<noteq> None"
    then obtain n where "map_of (files w) (a @ CHR ''/'' # b) = Some n" by auto
    from wf_world_parent [OF wf this] a b root show False
      by (simp add: Dir_plain2)
  qed
  show "map_of (files w) (a @ CHR ''/'' # b @ CHR ''/'' # n) = None" if n: "plain_name n"
  proof (rule ccontr)
    assume "map_of (files w) (a @ CHR ''/'' # b @ CHR ''/'' # n) \<noteq> None"
    then obtain x where "map_of (files w) (a @ CHR ''/'' # b @ CHR ''/'' # n) = Some x" by auto
    from wf_world_parent [OF wf this] a b n ab show False
      by (simp add: Dir_plain3 lookup_plain2)
  qed
qed

lemma Export_world1_same: "Sink_Export demo_codec run_sink cancelled ''traces'' [2] (world1\<lparr>now := 5\<rparr>) = (None, world2)"
  by code_simp

lemma Export_world1_later: "Sink_Export demo_codec run_sink cancelled ''traces'' [2] (world1\<lparr>now := 6\<rparr>) = (None, world3)"
  by code_simp












section \<open>The claims\<close>

subsection \<open>C1: the result of the three Export operations\<close>

text \<open>
  C1. Each of the three Export operations returns the empty response of its signal type
  exactly when \<open>Sink.Export\<close> returns nil, and the error with code Internal exactly when
  \<open>Sink.Export\<close> returns an error; \<open>Sink.Export\<close> returns an error exactly when the
  creation of the directory, the serialization or the write of the file fails.
\<close>

theorem C1_export_result:
  "(fst (traceServer_Export c s1 ctx req w) = Inr (ExportTraceServiceResponse None)
      \<longleftrightarrow> fst (Sink_Export c (trace_sink s1) ctx ''traces'' req
                  (klog_Infof (''trace.Export '' @ prototext_Format c req) w)) = None)
   \<and> (fst (traceServer_Export c s1 ctx req w) = Inl (Status Internal ''error writing data'')
      \<longleftrightarrow> (\<exists>err. fst (Sink_Export c (trace_sink s1) ctx ''traces'' req
                  (klog_Infof (''trace.Export '' @ prototext_Format c req) w)) = Some err))
   \<and> (fst (metricsServer_Export c s2 ctx req w) = Inr (ExportMetricsServiceResponse None)
      \<longleftrightarrow> fst (Sink_Export c (metrics_sink s2) ctx ''metrics'' req
                  (klog_Infof (''metrics.Export '' @ prototext_Format c req) w)) = None)
   \<and> (fst (metricsServer_Export c s2 ctx req w) = Inl (Status Internal ''error writing data'')
      \<longleftrightarrow> (\<exists>err. fst (Sink_Export c (metrics_sink s2) ctx ''metrics'' req
                  (klog_Infof (''metrics.Export '' @ prototext_Format c req) w)) = Some err))
   \<and> (fst (logsServer_Export c s3 ctx req w) = Inr (ExportLogsServiceResponse None)
      \<longleftrightarrow> fst (Sink_Export c (logs_sink s3) ctx ''logs'' req
                  (klog_Infof (''logs.Export '' @ prototext_Format c req) w)) = None)
   \<and> (fst (logsServer_Export c s3 ctx req w) = Inl (Status Internal ''error writing data'')
      \<longleftrightarrow> (\<exists>err. fst (Sink_Export c (logs_sink s3) ctx ''logs'' req
                  (klog_Infof (''logs.Export '' @ prototext_Format c req) w)) = Some err))
   \<and> ((\<exists>err. fst (Sink_Export c s ctx stream req w0) = Some err)
      \<longleftrightarrow> mkdir_fails s stream w0 \<or> marshal_fails c req \<or> write_fails c s stream req w0)"
proof -
  have servers: "?thesis \<longleftrightarrow> ((\<exists>err. fst (Sink_Export c s ctx stream req w0) = Some err)
      \<longleftrightarrow> mkdir_fails s stream w0 \<or> marshal_fails c req \<or> write_fails c s stream req w0)"
    by (simp add: traceServer_Export_def metricsServer_Export_def logsServer_Export_def
          split: prod.splits option.splits)
  show ?thesis
    unfolding servers by (rule Sink_Export_fails_iff)
qed

lemma plain_data: "plain_name (dir run_sink)"
  by (simp add: run_sink_def plain_name_def)

lemma plain_streams: "plain_name ''traces''" "plain_name ''metrics''" "plain_name ''logs''"
  by (simp_all add: plain_name_def)

lemma Export_world0: "Sink_Export demo_codec run_sink background ''traces'' [1] world0 = (None, world1)"
  by code_simp

subsection \<open>C2: the file a successful call writes\<close>




subsection \<open>C3: the destination path\<close>

text \<open>
  C3. For a storage root and a stream name that are plain names (as \<open>data\<close> and the three
  stream names are), the path \<open>Sink.Export\<close> computes is \<open>root/stream/n\<close>, where \<open>n\<close>
  is the decimal rendering of the clock reading in nanoseconds (reading \<open>n\<close> back as a
  decimal number gives the clock reading); every \<open>os.WriteFile\<close> the call issues is on
  that path, and when the call returns nil the serialized message is the file at that path.
\<close>

theorem C3_destination_path:
  assumes "plain_name (dir s)" and "plain_name stream"
    and "Sink_Export c s ctx stream msg w = (r, w')"
  shows "filepath_Join [dir s, stream, strconv_FormatInt (sint (now w)) 10]
           = dir s @ ''/'' @ stream @ ''/'' @ strconv_FormatInt (sint (now w)) 10
    \<and> strconv_ParseInt10 (strconv_FormatInt (sint (now w)) 10) = sint (now w)
    \<and> list_all (\<lambda>e. case e of
           WriteFileCall path data \<Rightarrow>
             path = dir s @ ''/'' @ stream @ ''/'' @ strconv_FormatInt (sint (now w)) 10
         | _ \<Rightarrow> True) (new_events w w')
    \<and> (r = None \<longrightarrow> (\<exists>b. proto_Marshal c msg = Inr b
           \<and> last (events w')
               = WriteFileCall (dir s @ ''/'' @ stream @ ''/'' @ strconv_FormatInt (sint (now w)) 10) b
           \<and> map_of (files w') (dir s @ ''/'' @ stream @ ''/'' @ strconv_FormatInt (sint (now w)) 10)
               = Some (File b)))"
proof -
  let ?p = "dir s @ ''/'' @ stream @ ''/'' @ strconv_FormatInt (sint (now w)) 10"
  have p: "?p = dest s stream w" by (simp add: dest_def)
  have j: "filepath_Join [dir s, stream, strconv_FormatInt (sint (now w)) 10] = ?p"
    using assms(1,2) by (simp add: Join_plain3 plain_name_FormatInt)
  have ev: "list_all (\<lambda>e. case e of WriteFileCall path data \<Rightarrow> path = dest s stream w | _ \<Rightarrow> True)
      (new_events w w')"
    using assms
  proof (cases rule: Sink_Export_cases)
    case (mkdir e)
    then show ?thesis by (simp add: new_events_def)
  next
    case (marshal w1 e)
    with MkdirAll2_ok(5) [OF marshal(1)] show ?thesis
      by (auto simp: new_events_def)
  next
    case (wopen w1 b)
    with MkdirAll2_ok(5) [OF wopen(1)] show ?thesis
      by (auto simp: new_events_def)
  next
    case (wio w1 b cause)
    with MkdirAll2_ok(5) [OF wio(1)] show ?thesis
      by (auto simp: new_events_def)
  next
    case (ok w1 b)
    with MkdirAll2_ok(5) [OF ok(1)] show ?thesis
      by (auto simp: new_events_def)
  qed
  have fin: "\<exists>b. proto_Marshal c msg = Inr b \<and> last (events w') = WriteFileCall (dest s stream w) b
           \<and> map_of (files w') (dest s stream w) = Some (File b)" if "r = None"
    using assms that
    by (cases rule: Sink_Export_cases) simp_all
  from j ev fin show ?thesis
    unfolding p by (simp add: ParseInt_FormatInt)
qed

theorem C3_witness:
  "plain_name (dir run_sink) \<and> plain_name ''traces''
   \<and> Sink_Export demo_codec run_sink background ''traces'' [1] world0 = (None, world1)
   \<and> filepath_Join [dir run_sink, ''traces'', strconv_FormatInt (sint (now world0)) 10]
       = ''data/traces/5''
   \<and> last (events world1) = WriteFileCall ''data/traces/5'' [0x0A, 1]
   \<and> map_of (files world1) ''data/traces/5'' = Some (File [0x0A, 1])"
proof -
  have n: "strconv_FormatInt (sint (now world0)) 10 = ''5''" by code_simp
  from C3_destination_path [OF plain_data plain_streams(1) Export_world0]
  show ?thesis
    using plain_data Export_world0
    by (simp add: n run_sink_def plain_name_def world1_def)
qed

subsection \<open>C4: what a caller and the log see of a failure\<close>




subsection \<open>C5: two calls on the same stream\<close>

text \<open>
  C5. Two successful calls of \<open>Sink.Export\<close> on the same stream (root and stream plain
  names), the second at clock reading \<open>t2\<close>: when \<open>t2\<close> differs from the first reading
  the two paths differ and after the second call each holds the serialization of its own
  message; when \<open>t2\<close> equals the first reading the path is the same, and after the second
  call, which returns nil, it holds the serialization of the second message.
\<close>

theorem C5_timestamps:
  assumes "plain_name (dir s)" and "plain_name stream"
    and "Sink_Export c s ctx1 stream m1 w = (None, w1)"
    and "Sink_Export c s ctx2 stream m2 (w1\<lparr>now := t2\<rparr>) = (None, w2)"
  shows "\<exists>b1 b2. proto_Marshal c m1 = Inr b1 \<and> proto_Marshal c m2 = Inr b2
     \<and> map_of (files w1) (dest s stream w) = Some (File b1)
     \<and> (if t2 = now w
         then dest s stream (w1\<lparr>now := t2\<rparr>) = dest s stream w
              \<and> map_of (files w2) (dest s stream w) = Some (File b2)
         else dest s stream (w1\<lparr>now := t2\<rparr>) \<noteq> dest s stream w
              \<and> map_of (files w2) (dest s stream w) = Some (File b1)
              \<and> map_of (files w2) (dest s stream (w1\<lparr>now := t2\<rparr>)) = Some (File b2))"
proof -
  from Sink_Export_ok_files [OF assms(1,2,3)] obtain b1 where
    b1: "proto_Marshal c m1 = Inr b1" "map_of (files w1) (dest s stream w) = Some (File b1)"
    by blast
  from Sink_Export_ok_files [OF assms(1,2,4)] obtain b2 where
    b2: "proto_Marshal c m2 = Inr b2"
      "map_of (files w2) (dest s stream (w1\<lparr>now := t2\<rparr>)) = Some (File b2)"
      "\<And>q. q \<noteq> dest s stream (w1\<lparr>now := t2\<rparr>) \<Longrightarrow> q \<noteq> dir s \<Longrightarrow> q \<noteq> dir s @ CHR ''/'' # stream \<Longrightarrow>
            map_of (files w2) q = map_of (files w1) q"
    by auto
  have d: "dest s stream (w1\<lparr>now := t2\<rparr>) = dest s stream w \<longleftrightarrow> t2 = now w"
    by (simp add: dest_eq_iff)
  show ?thesis
  proof (cases "t2 = now w")
    case True
    with b1 b2(1,2) d show ?thesis by auto
  next
    case False
    with d have ne: "dest s stream w \<noteq> dest s stream (w1\<lparr>now := t2\<rparr>)" by simp
    from b2(3) [OF ne dest_neq] b1(2)
    have "map_of (files w2) (dest s stream w) = Some (File b1)" by simp
    with False b1 b2(1,2) ne show ?thesis by auto
  qed
qed

theorem C5_witness:
  "plain_name (dir run_sink) \<and> plain_name ''traces''
   \<and> Sink_Export demo_codec run_sink background ''traces'' [1] world0 = (None, world1)
   \<and> Sink_Export demo_codec run_sink cancelled ''traces'' [2] (world1\<lparr>now := 5\<rparr>) = (None, world2)
   \<and> Sink_Export demo_codec run_sink cancelled ''traces'' [2] (world1\<lparr>now := 6\<rparr>) = (None, world3)
   \<and> map_of (files world2) ''data/traces/5'' = Some (File [0x0A, 2])
   \<and> map_of (files world3) ''data/traces/5'' = Some (File [0x0A, 1])
   \<and> map_of (files world3) ''data/traces/6'' = Some (File [0x0A, 2])"
proof -
  have n: "now world0 = 5" by (simp add: world0_def)
  have d6: "dest run_sink ''traces'' (world1\<lparr>now := 6\<rparr>) = ''data/traces/6''" by code_simp
  have m: "proto_Marshal demo_codec [1] = Inr [0x0A, 1]" "proto_Marshal demo_codec [2] = Inr [0x0A, 2]"
    by (simp_all add: demo_codec_def)
  from C5_timestamps [OF plain_data plain_streams(1) Export_world0 Export_world1_same]
  have same: "map_of (files world2) ''data/traces/5'' = Some (File [0x0A, 2])"
    by (auto simp: n m dest_world0)
  from C5_timestamps [OF plain_data plain_streams(1) Export_world0 Export_world1_later]
  have later: "map_of (files world3) ''data/traces/5'' = Some (File [0x0A, 1])
      \<and> map_of (files world3) ''data/traces/6'' = Some (File [0x0A, 2])"
    by (auto simp: n m dest_world0 d6)
  from same later plain_data plain_streams(1) Export_world0 Export_world1_same Export_world1_later
  show ?thesis by simp
qed

subsection \<open>C6: creating the directories\<close>

text \<open>
  C6. In a well-formed tree where the storage root (a plain name) does not exist, the
  first call of \<open>Sink.Export\<close> for a stream (a plain name) issues the two mkdir calls for
  \<open>root\<close> and \<open>root/stream\<close>, \<open>os.MkdirAll\<close> returns no error and both directories
  exist afterwards; a second call for the same stream, at any clock reading, issues no
  mkdir call and \<open>os.MkdirAll\<close> returns no error. Nothing in the tree can fail either
  call: each returns nil exactly when its message serializes and the device takes the
  bytes, so on a healthy device exactly when its message serializes.
\<close>

theorem C6_directories:
  assumes "plain_name (dir s)" and "plain_name stream"
    and "wf_world w" and "lookup w (dir s) = None"
    and "Sink_Export c s ctx1 stream m1 w = (r1, w1)"
    and "Sink_Export c s ctx2 stream m2 (w1\<lparr>now := t2\<rparr>) = (r2, w2)"
  shows "lookup w1 (dir s) = Some Dir
     \<and> lookup w1 (dir s @ ''/'' @ stream) = Some Dir
     \<and> take 2 (new_events w w1) = [MkdirCall (dir s), MkdirCall (dir s @ ''/'' @ stream)]
     \<and> \<not> mkdir_fails s stream w
     \<and> (r1 = None \<longleftrightarrow> (\<exists>b. proto_Marshal c m1 = Inr b \<and> device_takes w b))
     \<and> (healthy w \<longrightarrow> (r1 = None \<longleftrightarrow> \<not> marshal_fails c m1))
     \<and> \<not> mkdir_fails s stream (w1\<lparr>now := t2\<rparr>)
     \<and> list_all (\<lambda>e. \<not> is_MkdirCall e) (new_events (w1\<lparr>now := t2\<rparr>) w2)
     \<and> (r2 = None \<longleftrightarrow> (\<exists>b. proto_Marshal c m2 = Inr b \<and> device_takes (w1\<lparr>now := t2\<rparr>) b))
     \<and> (healthy w \<longrightarrow> (r2 = None \<longleftrightarrow> \<not> marshal_fails c m2))
     \<and> lookup w2 (dir s) = Some Dir
     \<and> lookup w2 (dir s @ ''/'' @ stream) = Some Dir"
proof -
  let ?a = "dir s" and ?ab = "dir s @ CHR ''/'' # stream"
  note pl = assms(1,2)
  note dn = dest_neq [of s stream] dest_neq [of s stream, THEN not_sym]
  note absent = wf_world_absent [OF assms(3) pl assms(4)]
  have d0: "map_of (files w) (dest s stream w) = None"
    unfolding dest_def by (rule absent(3)) (rule plain_name_FormatInt)
  define w0' where "w0' = w\<lparr>events := events w @ [MkdirCall ?a, MkdirCall ?ab],
                          files := AList.update ?ab Dir (AList.update ?a Dir (files w))\<rparr>"
  have mk1: "MkdirAll2 w ?a stream = (None, w0')"
    using absent(1,2) by (simp add: MkdirAll2_def w0'_def Let_def)
  have takes_healthy: "device_takes v b" if "healthy v" for v b
    using that by (simp add: healthy_def device_takes_def accepted_def)
  have dirs1: "map_of (files w1) ?a = Some Dir \<and> map_of (files w1) ?ab = Some Dir
        \<and> take 2 (new_events w w1) = [MkdirCall ?a, MkdirCall ?ab]
        \<and> (r1 = None \<longleftrightarrow> (\<exists>b. proto_Marshal c m1 = Inr b \<and> device_takes w b))
        \<and> (healthy w \<longrightarrow> healthy w1)
        \<and> (\<forall>n. plain_name n \<longrightarrow> map_of (files w1) (?ab @ CHR ''/'' # n) \<noteq> Some Dir)"
    using pl assms(5)
  proof (cases rule: Sink_Export_cases)
    case (mkdir e)
    with mk1 show ?thesis by simp
  next
    case (marshal w1' e)
    with mk1 absent(3) show ?thesis
      by (auto simp: w0'_def update_conv' new_events_def healthy_def)
  next
    case (wopen w1' b)
    with d0 show ?thesis by simp
  next
    case (wio w1' b cause)
    with mk1 absent(3) show ?thesis
      by (auto simp: w0'_def update_conv' new_events_def device_takes_def healthy_def
            accepted_def dn)
  next
    case (ok w1' b)
    with mk1 absent(3) show ?thesis
      by (auto simp: w0'_def update_conv' new_events_def device_takes_def healthy_def dn)
  qed
  have h1: "r1 = None \<longleftrightarrow> \<not> marshal_fails c m1" if "healthy w"
    using dirs1 takes_healthy [OF that]
    by (cases "proto_Marshal c m1") (simp_all add: marshal_fails_def)
  have nf1: "\<not> mkdir_fails s stream w"
    using pl mk1
    by (simp add: mkdir_fails_def Join_plain3 Dir_plain3 plain_name_FormatInt os_MkdirAll_plain2)
  let ?w = "w1\<lparr>now := t2\<rparr>"
  have mk2: "MkdirAll2 ?w ?a stream = (None, ?w)"
    using dirs1 by (simp add: MkdirAll2_def Let_def)
  have nf2: "\<not> mkdir_fails s stream ?w"
    using pl mk2
    by (simp add: mkdir_fails_def Join_plain3 Dir_plain3 plain_name_FormatInt os_MkdirAll_plain2)
  have d2: "map_of (files ?w) (dest s stream ?w) \<noteq> Some Dir"
    using dirs1 plain_name_FormatInt [of "sint t2"] by (simp add: dest_def)
  have second: "list_all (\<lambda>e. \<not> is_MkdirCall e) (new_events ?w w2)
        \<and> (r2 = None \<longleftrightarrow> (\<exists>b. proto_Marshal c m2 = Inr b \<and> device_takes ?w b))
        \<and> map_of (files w2) ?a = Some Dir \<and> map_of (files w2) ?ab = Some Dir"
    using pl assms(6)
  proof (cases rule: Sink_Export_cases)
    case (mkdir e)
    with mk2 show ?thesis by simp
  next
    case (marshal w1' e)
    with mk2 dirs1 show ?thesis
      by (auto simp: new_events_def)
  next
    case (wopen w1' b)
    with d2 show ?thesis by simp
  next
    case (wio w1' b cause)
    with mk2 dirs1 show ?thesis
      by (auto simp: new_events_def device_takes_def dn)
  next
    case (ok w1' b)
    with mk2 dirs1 show ?thesis
      by (auto simp: new_events_def device_takes_def dn)
  qed
  have h2: "r2 = None \<longleftrightarrow> \<not> marshal_fails c m2" if "healthy w"
  proof -
    from that dirs1 have "healthy ?w" by (simp add: healthy_def)
    from second takes_healthy [OF this] show ?thesis
      by (cases "proto_Marshal c m2") (simp_all add: marshal_fails_def)
  qed
  have ab: "dir s @ ''/'' @ stream = ?ab" by simp
  from dirs1 nf1 nf2 second h1 h2 pl show ?thesis
    unfolding ab by (simp add: lookup_plain1 lookup_plain2)
qed

theorem C6_witness:
  "plain_name (dir run_sink) \<and> plain_name ''traces''
   \<and> wf_world world0 \<and> lookup world0 (dir run_sink) = None
   \<and> Sink_Export demo_codec run_sink background ''traces'' [1] world0 = (None, world1)
   \<and> Sink_Export demo_codec run_sink cancelled ''traces'' [2] (world1\<lparr>now := 6\<rparr>) = (None, world3)
   \<and> healthy world0
   \<and> lookup world1 ''data'' = Some Dir \<and> lookup world1 ''data/traces'' = Some Dir
   \<and> take 2 (new_events world0 world1) = [MkdirCall ''data'', MkdirCall ''data/traces'']
   \<and> list_all (\<lambda>e. \<not> is_MkdirCall e) (new_events (world1\<lparr>now := 6\<rparr>) world3)"
proof -
  have wf: "wf_world world0" by (simp add: wf_world_def world0_def)
  have root: "lookup world0 (dir run_sink) = None" by code_simp
  have h: "healthy world0" by (simp add: healthy_def world0_def)
  from C6_directories [OF plain_data plain_streams(1) wf root Export_world0 Export_world1_later]
  show ?thesis
    using plain_data plain_streams(1) wf root h Export_world0 Export_world1_later
    by (simp add: run_sink_def)
qed

subsection \<open>C7: the three failures of Sink.Export\<close>




subsection \<open>C8: the streams are disjoint\<close>



subsection \<open>C9: the context is not consulted\<close>

text \<open>
  C9. \<open>Sink.Export\<close> does not look at its context: with any two contexts, cancelled or
  not, and the same sink, stream, message and world, it returns the same result and leaves
  the same world.
\<close>

theorem C9_ctx_ignored:
  "Sink_Export c s ctx1 stream msg w = Sink_Export c s ctx2 stream msg w"
  by (simp add: Sink_Export_def)

theorem C9_witness:
  "Sink_Export demo_codec run_sink cancelled ''traces'' [1] world0
     = Sink_Export demo_codec run_sink background ''traces'' [1] world0
   \<and> Sink_Export demo_codec run_sink cancelled ''traces'' [1] world0 = (None, world1)"
  using C9_ctx_ignored [of demo_codec run_sink cancelled "''traces''" "[1]" world0 background]
    Export_world0
  by simp

subsection \<open>C10: exit after an interrupt\<close>

text \<open>
  C10. When the listener was opened, the interrupt signal has arrived and
  \<open>grpcServer.Serve\<close> has not returned, \<open>run\<close> returns \<open>context.Canceled\<close>, which
  is not nil, and \<open>main\<close> prints it to standard error and exits with status 1.
\<close>

theorem C10_interrupt_exit:
  assumes "listen_err env = None" and "interrupted env" and "serve_returned env = None"
  shows "fst (run env (signal_NotifyContext env) w) = Some (Some Canceled)
    \<and> fst (main env w) = \<lparr>status = Some 1, stderr = ''context canceled'' @ [CHR 0x0A]\<rparr>"
  using assms by (simp add: run_def main_def signal_NotifyContext_def Let_def)

theorem C10_witness:
  "listen_err interrupt_env = None \<and> interrupted interrupt_env
   \<and> serve_returned interrupt_env = None
   \<and> fst (run interrupt_env (signal_NotifyContext interrupt_env) world0) = Some (Some Canceled)
   \<and> fst (main interrupt_env world0)
       = \<lparr>status = Some 1, stderr = ''context canceled'' @ [CHR 0x0A]\<rparr>"
proof -
  have h: "listen_err interrupt_env = None" "interrupted interrupt_env"
    "serve_returned interrupt_env = None"
    by (simp_all add: interrupt_env_def)
  from h C10_interrupt_exit [OF h, of world0] show ?thesis by simp
qed

end
